theory Spec2Isabelle
  imports Complex_Main
begin

section \<open>Data model of mat2nc.c\<close>

text \<open>
  The constants of the C file (\<^verbatim>\<open>#define NLAT 360\<close> and so on).
\<close>

definition NLAT :: nat where "NLAT = 360"
definition NLON :: nat where "NLON = 720"
definition NYEAR :: nat where "NYEAR = 18"
definition NRGN :: nat where "NRGN = 63"
definition NBASIN :: nat where "NBASIN = 235"

text \<open>
  A C \<^verbatim>\<open>float\<close> (and \<^verbatim>\<open>double\<close>) value. The finite values are modelled by the real
  number they denote and the arithmetic on them is exact: rounding, overflow and the
  infinities are not part of this model. The not-a-number marker \<^verbatim>\<open>NAN\<close> is kept as a
  value of its own, since the readers store it.
\<close>

datatype cfloat = NaN | Fin real

fun fadd :: "cfloat \<Rightarrow> cfloat \<Rightarrow> cfloat" where
  "fadd (Fin a) (Fin b) = Fin (a + b)"
| "fadd _ _ = NaN"

fun fmul :: "cfloat \<Rightarrow> cfloat \<Rightarrow> cfloat" where
  "fmul (Fin a) (Fin b) = Fin (a * b)"
| "fmul _ _ = NaN"

text \<open>
  \<^verbatim>\<open>typedef float (*datasliceptr)[NLAT][NLON]\<close>: the cell \<^verbatim>\<open>data[iyear][ilat][ilon]\<close>
  is the value of the grid at \<open>(iyear, ilat, ilon)\<close>. A table \<^verbatim>\<open>float *data\<close> is indexed
  by its flat offset.
\<close>

type_synonym grid = "nat \<times> nat \<times> nat \<Rightarrow> cfloat"
type_synonym table = "nat \<Rightarrow> cfloat"

text \<open>
  The binary input files, as \<^verbatim>\<open>fopen\<close> and \<^verbatim>\<open>fread(_, sizeof(float), n, _)\<close> see them:
  a name that cannot be opened has no entry, and an open file is the sequence of the
  complete 4-byte items it holds. \<^verbatim>\<open>fread\<close> hands over the next \<open>n\<close> items, or as many
  as are left, and moves the stream position behind them; its return value is the
  number of items handed over.
\<close>

type_synonym binfs = "string \<Rightarrow> cfloat list option"

definition fread :: "nat \<Rightarrow> 'a list \<Rightarrow> 'a list \<times> 'a list" where
  "fread n infile = (take n infile, drop n infile)"

section \<open>The grid readers\<close>

text \<open>
  The three nested loops that store \<^verbatim>\<open>NAN\<close> in \<^verbatim>\<open>data[iyear][ilat][ilon]\<close>, the same in
  both grid readers.
\<close>

definition fill_nan :: "grid \<Rightarrow> grid" where
  "fill_nan data =
     fold (\<lambda>iyear. fold (\<lambda>ilat. fold (\<lambda>ilon d. d((iyear, ilat, ilon) := NaN))
       [0..<NLON]) [0..<NLAT]) [0..<NYEAR] data"

text \<open>
  \<^verbatim>\<open>read_5yr_data\<close>, the loop
  \<^verbatim>\<open>data[iyear][ilat][ilon] = readdata[iyear][NLAT*ilon + ilat]\<close>. The read buffer
  \<^verbatim>\<open>readdata[NYEAR][NLON*NLAT]\<close> is the flat list of the items read, so
  \<^verbatim>\<open>readdata[iyear][j]\<close> is item \<open>iyear * (NLON * NLAT) + j\<close>.
\<close>

definition transpose_5yr :: "cfloat list \<Rightarrow> grid \<Rightarrow> grid" where
  "transpose_5yr readdata data =
     fold (\<lambda>iyear. fold (\<lambda>ilon. fold (\<lambda>ilat d.
         d((iyear, ilat, ilon) := readdata ! (iyear * (NLON * NLAT) + (NLAT * ilon + ilat))))
       [0..<NLAT]) [0..<NLON]) [0..<NYEAR] data"

text \<open>
  \<^verbatim>\<open>read_5yr_data(filename, data, nskipyr)\<close>. The result is the returned status and
  the grid after the call. The throwaway read goes into the same buffer
  \<^verbatim>\<open>readdata\<close> of \<open>NYEAR * NLON * NLAT\<close> floats; the source assumes that the block
  fits. A throwaway block that does not fit is written past the end of the buffer,
  which C leaves undefined: the result \<open>None\<close>. The count of the first read is not
  looked at again, as in the source. \<open>nskipyr\<close> is a natural number: the driver
  passes 1 or 2.
\<close>

definition read_5yr_data :: "binfs \<Rightarrow> string \<Rightarrow> grid \<Rightarrow> nat \<Rightarrow> (int \<times> grid) option" where
  "read_5yr_data fs filename data nskipyr =
     (if filename = ''no-data'' then Some (0, fill_nan data)
      else case fs filename of
        None \<Rightarrow> Some (1, data)
      | Some datafile \<Rightarrow>
          (let (skipped, datafile1) = fread (nskipyr * NLAT * NLON) datafile;
               (readdata, datafile2) = fread (NYEAR * NLAT * NLON) datafile1
           in if NYEAR * (NLON * NLAT) < length skipped then None
              else if length readdata \<noteq> NYEAR * NLAT * NLON then Some (1, data)
              else Some (0, transpose_5yr readdata data)))"

section \<open>The monthly grid reader\<close>

text \<open>
  \<^verbatim>\<open>read_and_aggregate_data\<close>. \<^verbatim>\<open>memset(transdata, 0, ...)\<close> followed by the two loops
  \<^verbatim>\<open>transdata[i] += readdata[imonth][i]\<close>: the buffer \<^verbatim>\<open>readdata[12][NLON*NLAT]\<close> is the
  flat list of the items of one year.
\<close>

definition sum_months :: "cfloat list \<Rightarrow> table" where
  "sum_months readdata =
     fold (\<lambda>imonth. fold (\<lambda>i transdata.
         transdata(i := fadd (transdata i) (readdata ! (imonth * (NLON * NLAT) + i))))
       [0..<NLAT * NLON]) [0..<12] (\<lambda>i. Fin 0)"

text \<open>\<^verbatim>\<open>fac = 3.156e-2 / 12.0\<close>\<close>

definition fac :: cfloat where
  "fac = Fin ((3156 / 100000) / 12)"

text \<open>The loop \<^verbatim>\<open>data[iyear][ilat][ilon] = transdata[NLAT*ilon + ilat]*fac\<close>.\<close>

definition store_year :: "nat \<Rightarrow> table \<Rightarrow> grid \<Rightarrow> grid" where
  "store_year iyear transdata data =
     fold (\<lambda>ilon. fold (\<lambda>ilat d.
         d((iyear, ilat, ilon) := fmul (transdata (NLAT * ilon + ilat)) fac))
       [0..<NLAT]) [0..<NLON] data"

text \<open>
  The loop over the years 2001 to 2095: a short read returns 3 at once, with the grid
  as the years before have left it; a year before 2010 or not divisible by 5 is read
  and dropped (\<^verbatim>\<open>continue\<close>).
\<close>

fun aggregate_years :: "nat list \<Rightarrow> cfloat list \<Rightarrow> grid \<Rightarrow> int \<times> grid" where
  "aggregate_years [] infile data = (0, data)"
| "aggregate_years (year # years) infile data =
     (let (readdata, infile1) = fread (12 * NLAT * NLON) infile
      in if length readdata \<noteq> 12 * NLAT * NLON then (3, data)
         else if year < 2010 \<or> year mod 5 \<noteq> 0 then aggregate_years years infile1 data
         else aggregate_years years infile1
                (store_year ((year - 2010) div 5) (sum_months readdata) data))"

definition read_and_aggregate_data :: "binfs \<Rightarrow> string \<Rightarrow> grid \<Rightarrow> int \<times> grid" where
  "read_and_aggregate_data fs filename data =
     (if filename = ''no-data'' then (0, fill_nan data)
      else case fs filename of
        None \<Rightarrow> (1, data)
      | Some infile \<Rightarrow> aggregate_years [2001..<2096] infile data)"

section \<open>The packed-binary table reader\<close>

text \<open>
  \<^verbatim>\<open>read_table_data(filename, nrow, data)\<close>. The throwaway year is read into
  \<^verbatim>\<open>float tempdata[NBASIN]\<close>; more than \<open>NBASIN\<close> items do not fit (undefined in C,
  \<open>None\<close> here). The second \<^verbatim>\<open>fread\<close> writes the items it gets straight into \<^verbatim>\<open>data\<close>,
  from offset 0, also when there are too few of them.
\<close>

definition store_items :: "cfloat list \<Rightarrow> table \<Rightarrow> table" where
  "store_items items data = (\<lambda>i. if i < length items then items ! i else data i)"

definition read_table_data :: "binfs \<Rightarrow> string \<Rightarrow> nat \<Rightarrow> table \<Rightarrow> (int \<times> table) option" where
  "read_table_data fs filename nrow data =
     (case fs filename of
        None \<Rightarrow> Some (1, data)
      | Some datafile \<Rightarrow>
          (let (tempdata, datafile1) = fread nrow datafile;
               (items, datafile2) = fread (NYEAR * nrow) datafile1
           in if NBASIN < length tempdata then None
              else if length items \<noteq> NYEAR * nrow then Some (1, store_items items data)
              else Some (0, store_items items data)))"

section \<open>The population reader\<close>

text \<open>
  The text files, as \<^verbatim>\<open>fopen(_, "r")\<close> sees them: the characters of every file that
  opens. An open stream is the characters still to be read.
\<close>

type_synonym txtfs = "string \<Rightarrow> string option"

text \<open>
  The conversion \<^verbatim>\<open>%f\<close> of the C library's \<^verbatim>\<open>fscanf\<close> is not code of this program. It
  is a parameter of the readers: a function from the stream to the value converted,
  if one is, and the stream that is left. (The library skips white space, reads the
  longest numeral and leaves the character after it unread.)
\<close>

type_synonym scanner = "string \<Rightarrow> cfloat option \<times> string"

definition isspace :: "char \<Rightarrow> bool" where
  "isspace c = (c \<in> set [CHR '' '', CHR 0x09, CHR 0x0A, CHR 0x0B, CHR 0x0C, CHR 0x0D])"

text \<open>
  \<^verbatim>\<open>fscanf(datafile, "%*f,%*f")\<close>: a number, a comma, a number, nothing stored; the
  scan stops at the first directive that does not match. The call's result is not
  used by the reader, so only the stream after it is kept.
\<close>

definition scanf_skip2 :: "scanner \<Rightarrow> string \<Rightarrow> string" where
  "scanf_skip2 scan s =
     (case scan s of
        (None, s1) \<Rightarrow> s1
      | (Some a, s1) \<Rightarrow>
          (case s1 of
             [] \<Rightarrow> s1
           | c # s2 \<Rightarrow> if c = CHR '','' then snd (scan s2) else s1))"

text \<open>
  \<^verbatim>\<open>nconv = fscanf(datafile, ",%lf", &tmp)\<close>: the next character has to be a comma (no
  white space is skipped before it), then a number is converted. The result is
  \<open>nconv\<close>, the value of \<^verbatim>\<open>tmp\<close> after the call and the stream after the call. \<open>nconv\<close>
  is 1 when a number was stored, \<^verbatim>\<open>EOF\<close> (-1) when the input ended before one could
  start, and 0 otherwise; \<^verbatim>\<open>tmp\<close> keeps its old value unless a number was stored.
\<close>

definition scanf_comma_lf :: "scanner \<Rightarrow> string \<Rightarrow> cfloat \<Rightarrow> int \<times> cfloat \<times> string" where
  "scanf_comma_lf scan s tmp =
     (case s of
        [] \<Rightarrow> (- 1, tmp, s)
      | c # s1 \<Rightarrow>
          if c \<noteq> CHR '','' then (0, tmp, s)
          else (case scan s1 of
                  (Some v, s2) \<Rightarrow> (1, v, s2)
                | (None, s2) \<Rightarrow> (if dropWhile isspace s1 = [] then - 1 else 0, tmp, s2)))"

text \<open>
  \<^verbatim>\<open>fgets(buf, n, datafile)\<close>: reads up to and including the next newline, but at most
  \<open>n - 1\<close> characters. The stream after the call.
\<close>

definition fgets :: "nat \<Rightarrow> string \<Rightarrow> string" where
  "fgets n s = drop (min (n - 1) (length (takeWhile (\<lambda>c. c \<noteq> CHR 0x0A) s) + 1)) s"

text \<open>
  \<^verbatim>\<open>round\<close> of the C library: to the nearest integer, halfway cases away from zero.
\<close>

definition c_round :: "real \<Rightarrow> int" where
  "c_round x = (if 0 \<le> x then \<lfloor>x + 1 / 2\<rfloor> else \<lceil>x - 1 / 2\<rceil>)"

text \<open>
  \<^verbatim>\<open>(int) round(tmp)\<close>. C defines the conversion to \<^verbatim>\<open>int\<close> only for a value whose
  integer part fits the 32-bit \<^verbatim>\<open>int\<close>; for the other values and for not-a-number the
  result is \<open>None\<close>.
\<close>

fun round_to_int :: "cfloat \<Rightarrow> int option" where
  "round_to_int NaN = None"
| "round_to_int (Fin x) =
     (if - (2 ^ 31) \<le> c_round x \<and> c_round x < 2 ^ 31 then Some (c_round x) else None)"

text \<open>
  \<^verbatim>\<open>int data[][NRGN]\<close>: the cell \<^verbatim>\<open>data[iyear][rgn]\<close> is the value at \<open>(iyear, rgn)\<close>.
\<close>

type_synonym poptable = "nat \<times> nat \<Rightarrow> int"

text \<open>
  The inner loop of \<^verbatim>\<open>read_pop_data\<close> over \<^verbatim>\<open>iyear\<close>, for one region: the cell is assigned
  from \<^verbatim>\<open>tmp\<close> first and \<^verbatim>\<open>nconv\<close> is tested after that. The result is the status (1
  for the early return, 0 when the loop ran to its end), the stream, \<^verbatim>\<open>tmp\<close> and the
  table.
\<close>

fun pop_years :: "scanner \<Rightarrow> nat \<Rightarrow> nat list \<Rightarrow> string \<Rightarrow> cfloat \<Rightarrow> poptable
    \<Rightarrow> (int \<times> string \<times> cfloat \<times> poptable) option" where
  "pop_years scan rgn [] s tmp data = Some (0, s, tmp, data)"
| "pop_years scan rgn (iyear # iyears) s tmp data =
     (case scanf_comma_lf scan s tmp of (nconv, tmp1, s1) \<Rightarrow>
        (case round_to_int tmp1 of
           None \<Rightarrow> None
         | Some v \<Rightarrow>
             if nconv \<noteq> 1 then Some (1, s1, tmp1, data((iyear, rgn) := v))
             else pop_years scan rgn iyears s1 tmp1 (data((iyear, rgn) := v))))"

text \<open>The outer loop over \<^verbatim>\<open>rgn\<close>.\<close>

fun pop_regions :: "scanner \<Rightarrow> nat list \<Rightarrow> string \<Rightarrow> cfloat \<Rightarrow> poptable
    \<Rightarrow> (int \<times> poptable) option" where
  "pop_regions scan [] s tmp data = Some (0, data)"
| "pop_regions scan (rgn # rgns) s tmp data =
     (case pop_years scan rgn [0..<NYEAR] (scanf_skip2 scan s) tmp data of
        None \<Rightarrow> None
      | Some (stat, s1, tmp1, data1) \<Rightarrow>
          if stat \<noteq> 0 then Some (1, data1)
          else pop_regions scan rgns (fgets 1024 s1) tmp1 data1)"

text \<open>
  \<^verbatim>\<open>read_pop_data(filename, data)\<close>. \<open>tmp0\<close> is what the uninitialised local \<^verbatim>\<open>double tmp\<close>
  holds at entry. There is no test for the sentinel name in this reader.
\<close>

definition read_pop_data :: "scanner \<Rightarrow> txtfs \<Rightarrow> string \<Rightarrow> cfloat \<Rightarrow> poptable
    \<Rightarrow> (int \<times> poptable) option" where
  "read_pop_data scan fs filename tmp0 data =
     (case fs filename of
        None \<Rightarrow> Some (1, data)
      | Some datafile \<Rightarrow> pop_regions scan [0..<NRGN] datafile tmp0 data)"

section \<open>The archive writer\<close>

text \<open>\<^verbatim>\<open>struct metadata\<close>; the scenario designator is never set or read.\<close>

record metadata =
  global_forcing :: cfloat
  global_pop :: cfloat
  global_pcgdp :: cfloat

text \<open>
  The netCDF library is not code of this program. \<^verbatim>\<open>mat2nc\<close> is modelled by the calls
  it makes to the library, in the order of the source, each with the mark whether
  \<^verbatim>\<open>check_err\<close> follows it. Dimensions and variables are named by their names rather
  than by the ids the library hands out.
\<close>

datatype nc_type = NC_FLOAT | NC_INT

datatype nc_data =
    Float_list "cfloat list"
  | Int_list "int list"
  | Float_grid grid
  | Float_table table
  | Int_table poptable

datatype nc_call =
    Nc_create string
  | Nc_def_dim string nat
  | Nc_def_var string nc_type "string list"
  | Nc_put_att_float string string cfloat
  | Nc_put_att_text string string string
  | Nc_enddef
  | Nc_put_var string nc_data
  | Nc_close

text \<open>The coordinate tables, as the initialisers of the source give them.\<close>

definition lat_data :: "cfloat list" where
  "lat_data = map Fin [
    - 89.75, - 89.25, - 88.75, - 88.25, - 87.75, - 87.25, - 86.75, - 86.25, - 85.75, - 85.25,
    - 84.75, - 84.25, - 83.75, - 83.25, - 82.75, - 82.25, - 81.75, - 81.25, - 80.75, - 80.25,
    - 79.75, - 79.25, - 78.75, - 78.25, - 77.75, - 77.25, - 76.75, - 76.25, - 75.75, - 75.25,
    - 74.75, - 74.25, - 73.75, - 73.25, - 72.75, - 72.25, - 71.75, - 71.25, - 70.75, - 70.25,
    - 69.75, - 69.25, - 68.75, - 68.25, - 67.75, - 67.25, - 66.75, - 66.25, - 65.75, - 65.25,
    - 64.75, - 64.25, - 63.75, - 63.25, - 62.75, - 62.25, - 61.75, - 61.25, - 60.75, - 60.25,
    - 59.75, - 59.25, - 58.75, - 58.25, - 57.75, - 57.25, - 56.75, - 56.25, - 55.75, - 55.25,
    - 54.75, - 54.25, - 53.75, - 53.25, - 52.75, - 52.25, - 51.75, - 51.25, - 50.75, - 50.25,
    - 49.75, - 49.25, - 48.75, - 48.25, - 47.75, - 47.25, - 46.75, - 46.25, - 45.75, - 45.25,
    - 44.75, - 44.25, - 43.75, - 43.25, - 42.75, - 42.25, - 41.75, - 41.25, - 40.75, - 40.25,
    - 39.75, - 39.25, - 38.75, - 38.25, - 37.75, - 37.25, - 36.75, - 36.25, - 35.75, - 35.25,
    - 34.75, - 34.25, - 33.75, - 33.25, - 32.75, - 32.25, - 31.75, - 31.25, - 30.75, - 30.25,
    - 29.75, - 29.25, - 28.75, - 28.25, - 27.75, - 27.25, - 26.75, - 26.25, - 25.75, - 25.25,
    - 24.75, - 24.25, - 23.75, - 23.25, - 22.75, - 22.25, - 21.75, - 21.25, - 20.75, - 20.25,
    - 19.75, - 19.25, - 18.75, - 18.25, - 17.75, - 17.25, - 16.75, - 16.25, - 15.75, - 15.25,
    - 14.75, - 14.25, - 13.75, - 13.25, - 12.75, - 12.25, - 11.75, - 11.25, - 10.75, - 10.25,
    - 9.75, - 9.25, - 8.75, - 8.25, - 7.75, - 7.25, - 6.75, - 6.25, - 5.75, - 5.25, - 4.75,
    - 4.25, - 3.75, - 3.25, - 2.75, - 2.25, - 1.75, - 1.25, - 0.75, - 0.25, 0.25, 0.75, 1.25,
    1.75, 2.25, 2.75, 3.25, 3.75, 4.25, 4.75, 5.25, 5.75, 6.25, 6.75, 7.25, 7.75, 8.25, 8.75,
    9.25, 9.75, 10.25, 10.75, 11.25, 11.75, 12.25, 12.75, 13.25, 13.75, 14.25, 14.75, 15.25,
    15.75, 16.25, 16.75, 17.25, 17.75, 18.25, 18.75, 19.25, 19.75, 20.25, 20.75, 21.25, 21.75,
    22.25, 22.75, 23.25, 23.75, 24.25, 24.75, 25.25, 25.75, 26.25, 26.75, 27.25, 27.75, 28.25,
    28.75, 29.25, 29.75, 30.25, 30.75, 31.25, 31.75, 32.25, 32.75, 33.25, 33.75, 34.25, 34.75,
    35.25, 35.75, 36.25, 36.75, 37.25, 37.75, 38.25, 38.75, 39.25, 39.75, 40.25, 40.75, 41.25,
    41.75, 42.25, 42.75, 43.25, 43.75, 44.25, 44.75, 45.25, 45.75, 46.25, 46.75, 47.25, 47.75,
    48.25, 48.75, 49.25, 49.75, 50.25, 50.75, 51.25, 51.75, 52.25, 52.75, 53.25, 53.75, 54.25,
    54.75, 55.25, 55.75, 56.25, 56.75, 57.25, 57.75, 58.25, 58.75, 59.25, 59.75, 60.25, 60.75,
    61.25, 61.75, 62.25, 62.75, 63.25, 63.75, 64.25, 64.75, 65.25, 65.75, 66.25, 66.75, 67.25,
    67.75, 68.25, 68.75, 69.25, 69.75, 70.25, 70.75, 71.25, 71.75, 72.25, 72.75, 73.25, 73.75,
    74.25, 74.75, 75.25, 75.75, 76.25, 76.75, 77.25, 77.75, 78.25, 78.75, 79.25, 79.75, 80.25,
    80.75, 81.25, 81.75, 82.25, 82.75, 83.25, 83.75, 84.25, 84.75, 85.25, 85.75, 86.25, 86.75,
    87.25, 87.75, 88.25, 88.75, 89.25, 89.75]"

definition lon_data :: "cfloat list" where
  "lon_data = map Fin [
    - 179.75, - 179.25, - 178.75, - 178.25, - 177.75, - 177.25, - 176.75, - 176.25, - 175.75,
    - 175.25, - 174.75, - 174.25, - 173.75, - 173.25, - 172.75, - 172.25, - 171.75, - 171.25,
    - 170.75, - 170.25, - 169.75, - 169.25, - 168.75, - 168.25, - 167.75, - 167.25, - 166.75,
    - 166.25, - 165.75, - 165.25, - 164.75, - 164.25, - 163.75, - 163.25, - 162.75, - 162.25,
    - 161.75, - 161.25, - 160.75, - 160.25, - 159.75, - 159.25, - 158.75, - 158.25, - 157.75,
    - 157.25, - 156.75, - 156.25, - 155.75, - 155.25, - 154.75, - 154.25, - 153.75, - 153.25,
    - 152.75, - 152.25, - 151.75, - 151.25, - 150.75, - 150.25, - 149.75, - 149.25, - 148.75,
    - 148.25, - 147.75, - 147.25, - 146.75, - 146.25, - 145.75, - 145.25, - 144.75, - 144.25,
    - 143.75, - 143.25, - 142.75, - 142.25, - 141.75, - 141.25, - 140.75, - 140.25, - 139.75,
    - 139.25, - 138.75, - 138.25, - 137.75, - 137.25, - 136.75, - 136.25, - 135.75, - 135.25,
    - 134.75, - 134.25, - 133.75, - 133.25, - 132.75, - 132.25, - 131.75, - 131.25, - 130.75,
    - 130.25, - 129.75, - 129.25, - 128.75, - 128.25, - 127.75, - 127.25, - 126.75, - 126.25,
    - 125.75, - 125.25, - 124.75, - 124.25, - 123.75, - 123.25, - 122.75, - 122.25, - 121.75,
    - 121.25, - 120.75, - 120.25, - 119.75, - 119.25, - 118.75, - 118.25, - 117.75, - 117.25,
    - 116.75, - 116.25, - 115.75, - 115.25, - 114.75, - 114.25, - 113.75, - 113.25, - 112.75,
    - 112.25, - 111.75, - 111.25, - 110.75, - 110.25, - 109.75, - 109.25, - 108.75, - 108.25,
    - 107.75, - 107.25, - 106.75, - 106.25, - 105.75, - 105.25, - 104.75, - 104.25, - 103.75,
    - 103.25, - 102.75, - 102.25, - 101.75, - 101.25, - 100.75, - 100.25, - 99.75, - 99.25,
    - 98.75, - 98.25, - 97.75, - 97.25, - 96.75, - 96.25, - 95.75, - 95.25, - 94.75, - 94.25,
    - 93.75, - 93.25, - 92.75, - 92.25, - 91.75, - 91.25, - 90.75, - 90.25, - 89.75, - 89.25,
    - 88.75, - 88.25, - 87.75, - 87.25, - 86.75, - 86.25, - 85.75, - 85.25, - 84.75, - 84.25,
    - 83.75, - 83.25, - 82.75, - 82.25, - 81.75, - 81.25, - 80.75, - 80.25, - 79.75, - 79.25,
    - 78.75, - 78.25, - 77.75, - 77.25, - 76.75, - 76.25, - 75.75, - 75.25, - 74.75, - 74.25,
    - 73.75, - 73.25, - 72.75, - 72.25, - 71.75, - 71.25, - 70.75, - 70.25, - 69.75, - 69.25,
    - 68.75, - 68.25, - 67.75, - 67.25, - 66.75, - 66.25, - 65.75, - 65.25, - 64.75, - 64.25,
    - 63.75, - 63.25, - 62.75, - 62.25, - 61.75, - 61.25, - 60.75, - 60.25, - 59.75, - 59.25,
    - 58.75, - 58.25, - 57.75, - 57.25, - 56.75, - 56.25, - 55.75, - 55.25, - 54.75, - 54.25,
    - 53.75, - 53.25, - 52.75, - 52.25, - 51.75, - 51.25, - 50.75, - 50.25, - 49.75, - 49.25,
    - 48.75, - 48.25, - 47.75, - 47.25, - 46.75, - 46.25, - 45.75, - 45.25, - 44.75, - 44.25,
    - 43.75, - 43.25, - 42.75, - 42.25, - 41.75, - 41.25, - 40.75, - 40.25, - 39.75, - 39.25,
    - 38.75, - 38.25, - 37.75, - 37.25, - 36.75, - 36.25, - 35.75, - 35.25, - 34.75, - 34.25,
    - 33.75, - 33.25, - 32.75, - 32.25, - 31.75, - 31.25, - 30.75, - 30.25, - 29.75, - 29.25,
    - 28.75, - 28.25, - 27.75, - 27.25, - 26.75, - 26.25, - 25.75, - 25.25, - 24.75, - 24.25,
    - 23.75, - 23.25, - 22.75, - 22.25, - 21.75, - 21.25, - 20.75, - 20.25, - 19.75, - 19.25,
    - 18.75, - 18.25, - 17.75, - 17.25, - 16.75, - 16.25, - 15.75, - 15.25, - 14.75, - 14.25,
    - 13.75, - 13.25, - 12.75, - 12.25, - 11.75, - 11.25, - 10.75, - 10.25, - 9.75, - 9.25,
    - 8.75, - 8.25, - 7.75, - 7.25, - 6.75, - 6.25, - 5.75, - 5.25, - 4.75, - 4.25, - 3.75,
    - 3.25, - 2.75, - 2.25, - 1.75, - 1.25, - 0.75, - 0.25, 0.25, 0.75, 1.25, 1.75, 2.25, 2.75,
    3.25, 3.75, 4.25, 4.75, 5.25, 5.75, 6.25, 6.75, 7.25, 7.75, 8.25, 8.75, 9.25, 9.75, 10.25,
    10.75, 11.25, 11.75, 12.25, 12.75, 13.25, 13.75, 14.25, 14.75, 15.25, 15.75, 16.25, 16.75,
    17.25, 17.75, 18.25, 18.75, 19.25, 19.75, 20.25, 20.75, 21.25, 21.75, 22.25, 22.75, 23.25,
    23.75, 24.25, 24.75, 25.25, 25.75, 26.25, 26.75, 27.25, 27.75, 28.25, 28.75, 29.25, 29.75,
    30.25, 30.75, 31.25, 31.75, 32.25, 32.75, 33.25, 33.75, 34.25, 34.75, 35.25, 35.75, 36.25,
    36.75, 37.25, 37.75, 38.25, 38.75, 39.25, 39.75, 40.25, 40.75, 41.25, 41.75, 42.25, 42.75,
    43.25, 43.75, 44.25, 44.75, 45.25, 45.75, 46.25, 46.75, 47.25, 47.75, 48.25, 48.75, 49.25,
    49.75, 50.25, 50.75, 51.25, 51.75, 52.25, 52.75, 53.25, 53.75, 54.25, 54.75, 55.25, 55.75,
    56.25, 56.75, 57.25, 57.75, 58.25, 58.75, 59.25, 59.75, 60.25, 60.75, 61.25, 61.75, 62.25,
    62.75, 63.25, 63.75, 64.25, 64.75, 65.25, 65.75, 66.25, 66.75, 67.25, 67.75, 68.25, 68.75,
    69.25, 69.75, 70.25, 70.75, 71.25, 71.75, 72.25, 72.75, 73.25, 73.75, 74.25, 74.75, 75.25,
    75.75, 76.25, 76.75, 77.25, 77.75, 78.25, 78.75, 79.25, 79.75, 80.25, 80.75, 81.25, 81.75,
    82.25, 82.75, 83.25, 83.75, 84.25, 84.75, 85.25, 85.75, 86.25, 86.75, 87.25, 87.75, 88.25,
    88.75, 89.25, 89.75, 90.25, 90.75, 91.25, 91.75, 92.25, 92.75, 93.25, 93.75, 94.25, 94.75,
    95.25, 95.75, 96.25, 96.75, 97.25, 97.75, 98.25, 98.75, 99.25, 99.75, 100.25, 100.75,
    101.25, 101.75, 102.25, 102.75, 103.25, 103.75, 104.25, 104.75, 105.25, 105.75, 106.25,
    106.75, 107.25, 107.75, 108.25, 108.75, 109.25, 109.75, 110.25, 110.75, 111.25, 111.75,
    112.25, 112.75, 113.25, 113.75, 114.25, 114.75, 115.25, 115.75, 116.25, 116.75, 117.25,
    117.75, 118.25, 118.75, 119.25, 119.75, 120.25, 120.75, 121.25, 121.75, 122.25, 122.75,
    123.25, 123.75, 124.25, 124.75, 125.25, 125.75, 126.25, 126.75, 127.25, 127.75, 128.25,
    128.75, 129.25, 129.75, 130.25, 130.75, 131.25, 131.75, 132.25, 132.75, 133.25, 133.75,
    134.25, 134.75, 135.25, 135.75, 136.25, 136.75, 137.25, 137.75, 138.25, 138.75, 139.25,
    139.75, 140.25, 140.75, 141.25, 141.75, 142.25, 142.75, 143.25, 143.75, 144.25, 144.75,
    145.25, 145.75, 146.25, 146.75, 147.25, 147.75, 148.25, 148.75, 149.25, 149.75, 150.25,
    150.75, 151.25, 151.75, 152.25, 152.75, 153.25, 153.75, 154.25, 154.75, 155.25, 155.75,
    156.25, 156.75, 157.25, 157.75, 158.25, 158.75, 159.25, 159.75, 160.25, 160.75, 161.25,
    161.75, 162.25, 162.75, 163.25, 163.75, 164.25, 164.75, 165.25, 165.75, 166.25, 166.75,
    167.25, 167.75, 168.25, 168.75, 169.25, 169.75, 170.25, 170.75, 171.25, 171.75, 172.25,
    172.75, 173.25, 173.75, 174.25, 174.75, 175.25, 175.75, 176.25, 176.75, 177.25, 177.75,
    178.25, 178.75, 179.25, 179.75]"

definition time_data :: "cfloat list" where
  "time_data = map Fin [
    2010, 2015, 2020, 2025, 2030, 2035, 2040, 2045, 2050, 2055, 2060, 2065, 2070, 2075, 2080,
    2085, 2090, 2095]"

text \<open>The loops \<^verbatim>\<open>rgn_data[i] = i\<close> and \<^verbatim>\<open>basin_data[i] = i+1\<close>.\<close>

definition rgn_data :: "int list" where
  "rgn_data = map (\<lambda>i. int i) [0..<NRGN]"

definition basin_data :: "int list" where
  "basin_data = map (\<lambda>i. int i + 1) [0..<NBASIN]"

text \<open>The names of the data variables, in the order of the source.\<close>

definition grid_names :: "string list" where
  "grid_names = [''supply'', ''irrigation_demand'', ''livestock_demand'', ''electricity_demand'',
     ''mfg_demand'', ''total_demand'', ''domestic_demand'', ''scarcity'']"

definition basin_names :: "string list" where
  "basin_names = [''basin_supply'', ''basin_irrigation_demand'', ''basin_livestock_demand'',
     ''basin_electricity_demand'', ''basin_manufacturing_demand'', ''basin_total_demand'',
     ''basin_domestic_demand'', ''basin_water_scarcity'']"

definition region_names :: "string list" where
  "region_names = [''region_supply'', ''region_irrigation_demand'', ''region_livestock_demand'',
     ''region_electricity_demand'', ''region_manufacturing_demand'', ''region_total'',
     ''region_domestic_demand'', ''region_water_scarcity'']"

text \<open>
  The library calls of \<^verbatim>\<open>mat2nc\<close>. The driver passes \<^verbatim>\<open>data[0]\<close> to \<^verbatim>\<open>data[7]\<close> as
  \<^verbatim>\<open>supply\<close> to \<^verbatim>\<open>scarcity\<close>, and the basin and region tables likewise; here the three
  arrays are passed and picked from in that order. The units of the supply and demand
  variables and of the scarcity variables are set without \<^verbatim>\<open>check_err\<close>.
\<close>

definition mat2nc_calls :: "string \<Rightarrow> metadata \<Rightarrow> (nat \<Rightarrow> grid) \<Rightarrow> poptable \<Rightarrow> (nat \<Rightarrow> table)
    \<Rightarrow> (nat \<Rightarrow> table) \<Rightarrow> (nc_call \<times> bool) list" where
  "mat2nc_calls outfilename md data pop bdata rdata =
     [(Nc_create outfilename, True),
      (Nc_def_dim ''lat'' NLAT, True),
      (Nc_def_dim ''lon'' NLON, True),
      (Nc_def_dim ''time'' NYEAR, True),
      (Nc_def_dim ''rgn'' NRGN, True),
      (Nc_def_dim ''basin'' NBASIN, True),
      (Nc_def_var ''lat'' NC_FLOAT [''lat''], True),
      (Nc_def_var ''lon'' NC_FLOAT [''lon''], True),
      (Nc_def_var ''time'' NC_FLOAT [''time''], True),
      (Nc_def_var ''rgn'' NC_INT [''rgn''], True),
      (Nc_def_var ''basin'' NC_INT [''basin''], True)] @
     map (\<lambda>n. (Nc_def_var n NC_FLOAT [''time'', ''lat'', ''lon''], True)) grid_names @
     [(Nc_def_var ''population'' NC_INT [''time'', ''rgn''], True)] @
     map (\<lambda>n. (Nc_def_var n NC_FLOAT [''time'', ''basin''], True)) basin_names @
     map (\<lambda>n. (Nc_def_var n NC_FLOAT [''time'', ''rgn''], True)) region_names @
     [(Nc_put_att_float ''NC_GLOBAL'' ''forcing'' (global_forcing md), True),
      (Nc_put_att_float ''NC_GLOBAL'' ''population'' (global_pop md), True),
      (Nc_put_att_text ''lat'' ''units'' ''degrees_north'', True),
      (Nc_put_att_text ''lon'' ''units'' ''degrees_east'', True),
      (Nc_put_att_text ''time'' ''units'' ''year'', True),
      (Nc_put_att_text ''population'' ''units'' ''thousands'', True)] @
     map (\<lambda>n. (Nc_put_att_text n ''units'' ''km^3'', False)) (butlast grid_names) @
     map (\<lambda>n. (Nc_put_att_text n ''units'' ''km^3'', False)) (butlast basin_names) @
     map (\<lambda>n. (Nc_put_att_text n ''units'' ''km^3'', False)) (butlast region_names) @
     [(Nc_put_att_text ''scarcity'' ''units'' ''(unitless)'', False),
      (Nc_put_att_text ''basin_water_scarcity'' ''units'' ''(unitless)'', False),
      (Nc_put_att_text ''region_water_scarcity'' ''units'' ''(unitless)'', False),
      (Nc_enddef, True),
      (Nc_put_var ''lat'' (Float_list lat_data), True),
      (Nc_put_var ''lon'' (Float_list lon_data), True),
      (Nc_put_var ''time'' (Float_list time_data), True),
      (Nc_put_var ''rgn'' (Int_list rgn_data), True),
      (Nc_put_var ''basin'' (Int_list basin_data), True)] @
     map (\<lambda>i. (Nc_put_var (grid_names ! i) (Float_grid (data i)), True)) [0..<8] @
     [(Nc_put_var ''population'' (Int_table pop), True)] @
     map (\<lambda>i. (Nc_put_var (basin_names ! i) (Float_table (bdata i)), True)) [0..<8] @
     map (\<lambda>i. (Nc_put_var (region_names ! i) (Float_table (rdata i)), True)) [0..<8] @
     [(Nc_close, True)]"




text \<open>What the calls write into the variable \<open>name\<close>.\<close>

fun written :: "string \<Rightarrow> (nc_call \<times> bool) list \<Rightarrow> nc_data list" where
  "written name [] = []"
| "written name ((Nc_put_var n d, checked) # calls) =
     (if n = name then d # written name calls else written name calls)"
| "written name (call # calls) = written name calls"

text \<open>The length given to the dimension \<open>name\<close>.\<close>

fun dim_lengths :: "string \<Rightarrow> (nc_call \<times> bool) list \<Rightarrow> nat list" where
  "dim_lengths name [] = []"
| "dim_lengths name ((Nc_def_dim n len, checked) # calls) =
     (if n = name then len # dim_lengths name calls else dim_lengths name calls)"
| "dim_lengths name (call # calls) = dim_lengths name calls"

text \<open>A list that starts at \<open>a\<close> and goes up in steps of one half.\<close>

fun steps_from :: "real \<Rightarrow> real list \<Rightarrow> bool" where
  "steps_from a [] = True"
| "steps_from a (x # xs) = (x = a \<and> steps_from (a + 1 / 2) xs)"



section \<open>The driver\<close>










text \<open>
  The layout of a configuration, for the statements below: three attribute values
  and the file names, with a blank in front of each but the first.
\<close>

definition cfg_tokens :: "string list \<Rightarrow> string" where
  "cfg_tokens names = concat (map (\<lambda>t. CHR '' '' # t) names)"





text \<open>
  The layout of the text inputs, for the statements below. The scanner \<^emph>\<open>reads\<close> a
  field as a value when, with the field at the head of the stream and a comma, a
  newline, a blank or the end of the input after it, it converts that value and
  leaves the stream behind the field.
\<close>

definition reads :: "scanner \<Rightarrow> string \<Rightarrow> cfloat \<Rightarrow> bool" where
  "reads scan field v \<longleftrightarrow>
     (\<forall>rest. rest = [] \<or> hd rest = CHR '','' \<or> hd rest = CHR 0x0A \<or> hd rest = CHR '' '' \<longrightarrow>
        scan (field @ rest) = (Some v, rest))"

text \<open>The year fields \<open>fld y\<close> of a line, each with its comma in front.\<close>

definition pop_fields :: "(nat \<Rightarrow> string) \<Rightarrow> nat list \<Rightarrow> string" where
  "pop_fields fld ys = concat (map (\<lambda>y. CHR '','' # fld y) ys)"

text \<open>
  A whole line: two leading fields, the 18 year fields, whatever trails them, and the
  newline.
\<close>

definition pop_line :: "string \<Rightarrow> string \<Rightarrow> (nat \<Rightarrow> string) \<Rightarrow> string \<Rightarrow> string" where
  "pop_line a b fld trail = a @ CHR '','' # b @ pop_fields fld [0..<NYEAR] @ trail @ [CHR 0x0A]"

text \<open>A value whose rounding fits the 32-bit \<^verbatim>\<open>int\<close>.\<close>

definition fits_int :: "real \<Rightarrow> bool" where
  "fits_int x \<longleftrightarrow> - (2 ^ 31) \<le> c_round x \<and> c_round x < 2 ^ 31"

text \<open>
  A line that the reader takes in whole: the scanner reads its two leading fields and
  its 18 year fields, the year values fit an \<^verbatim>\<open>int\<close>, and what trails the year fields
  starts with a comma (if there is anything), has no newline in it and is shorter
  than the 1023 characters one \<^verbatim>\<open>fgets\<close> takes.
\<close>

definition good_line :: "scanner \<Rightarrow> string \<Rightarrow> string \<Rightarrow> (nat \<Rightarrow> string) \<Rightarrow> string
    \<Rightarrow> (nat \<Rightarrow> real) \<Rightarrow> bool" where
  "good_line scan a b fld trail v \<longleftrightarrow>
     (\<exists>va. reads scan a va) \<and> (\<exists>vb. reads scan b vb) \<and>
     (\<forall>y < NYEAR. reads scan (fld y) (Fin (v y)) \<and> fits_int (v y)) \<and>
     (trail = [] \<or> hd trail = CHR '','') \<and> CHR 0x0A \<notin> set trail \<and> length trail < 1023"

text \<open>
  What \<^verbatim>\<open>tmp\<close> holds when the field of year \<open>iyear\<close> of region \<open>rgn\<close> is about to be
  converted, all fields before it having been read: the value of the field before,
  or what it held at entry for the very first field.
\<close>

definition tmp_before :: "cfloat \<Rightarrow> (nat \<Rightarrow> nat \<Rightarrow> real) \<Rightarrow> nat \<Rightarrow> nat \<Rightarrow> cfloat" where
  "tmp_before tmp0 v rgn iyear =
     (if 0 < iyear then Fin (v rgn (iyear - 1))
      else if 0 < rgn then Fin (v (rgn - 1) (NYEAR - 1))
      else tmp0)"

text \<open>The lines of the regions \<open>rs\<close>, one after the other.\<close>

definition pop_lines :: "(nat \<Rightarrow> string) \<Rightarrow> (nat \<Rightarrow> string) \<Rightarrow> (nat \<Rightarrow> nat \<Rightarrow> string)
    \<Rightarrow> (nat \<Rightarrow> string) \<Rightarrow> nat list \<Rightarrow> string" where
  "pop_lines a b fld trail rs = concat (map (\<lambda>r. pop_line (a r) (b r) (fld r) (trail r)) rs)"

text \<open>
  An instance of the scanner, for the examples: it takes the plain decimal numerals
  (an optional sign, digits, an optional point and digits) and no other form.
\<close>

definition isdigit :: "char \<Rightarrow> bool" where
  "isdigit c = (c \<in> set ''0123456789'')"

definition digits_val :: "string \<Rightarrow> nat" where
  "digits_val ds = foldl (\<lambda>n c. 10 * n + (of_char c - 48)) 0 ds"

definition scan_decimal :: scanner where
  "scan_decimal s =
     (let s1 = dropWhile isspace s;
          neg = (s1 \<noteq> [] \<and> hd s1 = CHR ''-'');
          s2 = (if s1 \<noteq> [] \<and> (hd s1 = CHR ''-'' \<or> hd s1 = CHR ''+'') then tl s1 else s1);
          ip = takeWhile isdigit s2;
          s3 = dropWhile isdigit s2;
          point = (s3 \<noteq> [] \<and> hd s3 = CHR ''.'');
          fp = (if point then takeWhile isdigit (tl s3) else []);
          s4 = (if point then dropWhile isdigit (tl s3) else s3)
      in if ip = [] \<and> fp = [] then (None, s4)
         else (Some (Fin ((if neg then - 1 else 1) *
                 (real (digits_val ip) + real (digits_val fp) / 10 ^ length fp))), s4))"

text \<open>
  Contents for the examples. In \<open>example_pop_file\<close> every line has the two leading
  fields and 18 year fields; the line of region 0 has 256 more fields after them,
  1024 characters in all.
\<close>

definition zero_pop :: poptable where
  "zero_pop = (\<lambda>c. 0)"





section \<open>The specification's sentences as definitions\<close>


section \<open>Loops in closed form\<close>

text \<open>
  A counting loop whose every iteration either stores one fixed value at the place
  \<open>x\<close> or leaves that place alone.
\<close>

lemma fold_upt_at:
  assumes "\<And>i d. i < n \<Longrightarrow> body i d x = (if P i then v else d x)"
  shows "fold body [0..<n] d x = (if \<exists>i<n. P i then v else d x)"
  using assms
proof (induction n)
  case 0
  show ?case by simp
next
  case (Suc n)
  have step: "fold body [0..<n] d x = (if \<exists>i<n. P i then v else d x)"
    by (rule Suc.IH) (simp add: Suc.prems)
  have "fold body [0..<Suc n] d x = body n (fold body [0..<n] d) x"
    by simp
  also have "\<dots> = (if P n then v else fold body [0..<n] d x)"
    by (rule Suc.prems) simp
  finally show ?case
    unfolding step by (auto simp: less_Suc_eq)
qed

lemma fill_lon_at:
  "fold (\<lambda>ilon d. d((t, la, ilon) := NaN)) [0..<n] (d :: grid) x =
     (if \<exists>lo<n. x = (t, la, lo) then NaN else d x)"
  by (rule fold_upt_at) simp

lemma fill_lat_at:
  "fold (\<lambda>ilat. fold (\<lambda>ilon d. d((t, ilat, ilon) := NaN)) [0..<m]) [0..<n] (d :: grid) x =
     (if \<exists>la<n. \<exists>lo<m. x = (t, la, lo) then NaN else d x)"
  by (rule fold_upt_at) (rule fill_lon_at)

lemma fill_year_at:
  "fold (\<lambda>iyear. fold (\<lambda>ilat. fold (\<lambda>ilon d. d((iyear, ilat, ilon) := NaN))
       [0..<m]) [0..<l]) [0..<n] (d :: grid) x =
     (if \<exists>t<n. \<exists>la<l. \<exists>lo<m. x = (t, la, lo) then NaN else d x)"
  by (rule fold_upt_at) (rule fill_lat_at)

lemma fill_nan_at:
  "fill_nan data (t, la, lo) =
     (if t < NYEAR \<and> la < NLAT \<and> lo < NLON then NaN else data (t, la, lo))"
  unfolding fill_nan_def fill_year_at by simp

lemma transpose_lat_at:
  "fold (\<lambda>ilat d. d((iy, ilat, ilon) := V (iy, ilat, ilon))) [0..<n] (d :: grid) x =
     (if \<exists>la<n. x = (iy, la, ilon) then V x else d x)"
  by (rule fold_upt_at) auto

lemma transpose_lon_at:
  "fold (\<lambda>ilon. fold (\<lambda>ilat d. d((iy, ilat, ilon) := V (iy, ilat, ilon))) [0..<m])
      [0..<n] (d :: grid) x =
     (if \<exists>lo<n. \<exists>la<m. x = (iy, la, lo) then V x else d x)"
  by (rule fold_upt_at) (rule transpose_lat_at)

lemma transpose_year_at:
  "fold (\<lambda>iy. fold (\<lambda>ilon. fold (\<lambda>ilat d. d((iy, ilat, ilon) := V (iy, ilat, ilon)))
      [0..<m]) [0..<l]) [0..<n] (d :: grid) x =
     (if \<exists>t<n. \<exists>lo<l. \<exists>la<m. x = (t, la, lo) then V x else d x)"
  by (rule fold_upt_at) (rule transpose_lon_at)

lemma transpose_5yr_at:
  "transpose_5yr readdata data (t, la, lo) =
     (if t < NYEAR \<and> la < NLAT \<and> lo < NLON
      then readdata ! (t * (NLON * NLAT) + (NLAT * lo + la)) else data (t, la, lo))"
  unfolding transpose_5yr_def
  using transpose_year_at [of "\<lambda>(t, la, lo). readdata ! (t * (NLON * NLAT) + (NLAT * lo + la))"
      NLAT NLON NYEAR data "(t, la, lo)"]
  by simp


section \<open>The year loop of the monthly reader\<close>












section \<open>The loops of the population reader\<close>

lemma round_to_int_fits: "fits_int x \<Longrightarrow> round_to_int (Fin x) = Some (c_round x)"
  by (simp add: fits_int_def)

lemma pop_fields_Cons: "pop_fields fld (y # ys) = CHR '','' # fld y @ pop_fields fld ys"
  by (simp add: pop_fields_def)

lemma pop_fields_append: "pop_fields fld (ys @ zs) = pop_fields fld ys @ pop_fields fld zs"
  by (simp add: pop_fields_def)

lemma pop_fields_head:
  "rest = [] \<or> hd rest = CHR '','' \<or> hd rest = CHR 0x0A \<Longrightarrow>
   pop_fields fld ys @ rest = [] \<or> hd (pop_fields fld ys @ rest) = CHR '','' \<or>
     hd (pop_fields fld ys @ rest) = CHR 0x0A"
  by (cases ys) (simp_all add: pop_fields_def)

lemma scanf_comma_lf_reads:
  assumes "reads scan field v" and "rest = [] \<or> hd rest = CHR '','' \<or> hd rest = CHR 0x0A"
  shows "scanf_comma_lf scan (CHR '','' # field @ rest) tmp = (1, v, rest)"
proof -
  have "scan (field @ rest) = (Some v, rest)"
    using assms unfolding reads_def by blast
  then show ?thesis
    by (simp add: scanf_comma_lf_def)
qed

lemma scanf_comma_lf_fail:
  assumes "fst (scanf_comma_lf scan s tmp) \<noteq> 1"
  shows "\<exists>n s1. scanf_comma_lf scan s tmp = (n, tmp, s1) \<and> n \<noteq> 1"
  using assms by (auto simp: scanf_comma_lf_def split: list.splits option.splits prod.splits if_splits)

lemma scanf_comma_lf_status:
  "fst (scanf_comma_lf scan s tmp) = fst (scanf_comma_lf scan s tmp')"
  by (auto simp: scanf_comma_lf_def split: list.splits option.splits prod.splits)

lemma pop_years_ok:
  assumes "\<forall>y \<in> set ys. reads scan (fld y) (Fin (v y)) \<and> fits_int (v y)"
    and "rest = [] \<or> hd rest = CHR '','' \<or> hd rest = CHR 0x0A"
  shows "pop_years scan rgn ys (pop_fields fld ys @ rest) tmp data =
     Some (0, rest, if ys = [] then tmp else Fin (v (last ys)),
           \<lambda>(y, r). if r = rgn \<and> y \<in> set ys then c_round (v y) else data (y, r))"
  using assms(1)
proof (induction ys arbitrary: tmp data)
  case Nil
  show ?case by (simp add: pop_fields_def)
next
  case (Cons y ys)
  have field: "reads scan (fld y) (Fin (v y))" and fits: "fits_int (v y)"
    using Cons.prems by simp_all
  have later: "\<forall>y \<in> set ys. reads scan (fld y) (Fin (v y)) \<and> fits_int (v y)"
    using Cons.prems by simp
  have scan: "scanf_comma_lf scan (CHR '','' # fld y @ (pop_fields fld ys @ rest)) tmp =
      (1, Fin (v y), pop_fields fld ys @ rest)"
    using field pop_fields_head [OF assms(2)] by (rule scanf_comma_lf_reads)
  have "pop_years scan rgn (y # ys) (pop_fields fld (y # ys) @ rest) tmp data =
      pop_years scan rgn ys (pop_fields fld ys @ rest) (Fin (v y)) (data((y, rgn) := c_round (v y)))"
    using scan round_to_int_fits [OF fits] by (simp add: pop_fields_Cons)
  also have "\<dots> = Some (0, rest, if ys = [] then Fin (v y) else Fin (v (last ys)),
      \<lambda>(y', r). if r = rgn \<and> y' \<in> set ys then c_round (v y')
                else (data((y, rgn) := c_round (v y))) (y', r))"
    by (rule Cons.IH [OF later])
  also have "(\<lambda>(y', r). if r = rgn \<and> y' \<in> set ys then c_round (v y')
                else (data((y, rgn) := c_round (v y))) (y', r)) =
      (\<lambda>(y', r). if r = rgn \<and> y' \<in> set (y # ys) then c_round (v y') else data (y', r))"
    by (auto simp: fun_eq_iff)
  finally show ?case by simp
qed

lemma pop_years_append:
  "pop_years scan rgn (ys @ zs) s tmp data =
     (case pop_years scan rgn ys s tmp data of
        None \<Rightarrow> None
      | Some (stat, s1, tmp1, data1) \<Rightarrow>
          if stat \<noteq> 0 then Some (stat, s1, tmp1, data1)
          else pop_years scan rgn zs s1 tmp1 data1)"
  by (induction ys arbitrary: s tmp data)
    (auto split: prod.splits option.splits)

lemma pop_years_fail:
  assumes "\<forall>y \<in> set ys. reads scan (fld y) (Fin (v y)) \<and> fits_int (v y)"
    and "bad = [] \<or> hd bad = CHR '','' \<or> hd bad = CHR 0x0A"
    and "fst (scanf_comma_lf scan bad tmp) \<noteq> 1"
    and "round_to_int (if ys = [] then tmp else Fin (v (last ys))) = Some w"
  shows "\<exists>s1. pop_years scan rgn (ys @ y # zs) (pop_fields fld ys @ bad) tmp data =
     Some (1, s1, if ys = [] then tmp else Fin (v (last ys)),
           (\<lambda>(y', r). if r = rgn \<and> y' \<in> set ys then c_round (v y') else data (y', r))
             ((y, rgn) := w))"
proof -
  let ?tmp = "if ys = [] then tmp else Fin (v (last ys))"
  have "fst (scanf_comma_lf scan bad ?tmp) \<noteq> 1"
    using assms(3) scanf_comma_lf_status [of scan bad tmp ?tmp] by simp
  then obtain n s1 where fail: "scanf_comma_lf scan bad ?tmp = (n, ?tmp, s1)" and n: "n \<noteq> 1"
    using scanf_comma_lf_fail by blast
  show ?thesis
    unfolding pop_years_append pop_years_ok [OF assms(1,2)]
    using fail n assms(4) by (intro exI [of _ s1]) simp
qed

lemma scanf_skip2_reads:
  assumes "reads scan a va" and "reads scan b vb"
    and "rest = [] \<or> hd rest = CHR '','' \<or> hd rest = CHR 0x0A"
  shows "scanf_skip2 scan (a @ CHR '','' # b @ rest) = rest"
proof -
  have "scan (a @ (CHR '','' # b @ rest)) = (Some va, CHR '','' # b @ rest)"
    using assms(1) unfolding reads_def by simp
  moreover have "scan (b @ rest) = (Some vb, rest)"
    using assms(2,3) unfolding reads_def by blast
  ultimately show ?thesis
    by (simp add: scanf_skip2_def)
qed

lemma fgets_line:
  assumes "CHR 0x0A \<notin> set trail" and "length trail < 1023"
  shows "fgets 1024 (trail @ CHR 0x0A # next) = next"
proof -
  have line: "takeWhile (\<lambda>c. c \<noteq> CHR 0x0A) (trail @ CHR 0x0A # next) = trail"
    using assms(1) by (induction trail) auto
  have count: "min (1024 - 1) (length trail + 1) = length trail + 1"
    using assms(2) by simp
  show ?thesis
    unfolding fgets_def line count by simp
qed

lemma NYEAR_pos: "[0..<NYEAR] \<noteq> []" "last [0..<NYEAR] = NYEAR - 1"
  by (simp_all add: NYEAR_def)

lemma pop_regions_fields:
  assumes "reads scan a va" and "reads scan b vb"
    and "\<forall>y < NYEAR. reads scan (fld y) (Fin (v y)) \<and> fits_int (v y)"
    and "rest = [] \<or> hd rest = CHR '','' \<or> hd rest = CHR 0x0A"
  shows "pop_regions scan (r # rs) (a @ CHR '','' # b @ pop_fields fld [0..<NYEAR] @ rest) tmp data =
     pop_regions scan rs (fgets 1024 rest) (Fin (v (NYEAR - 1)))
       (\<lambda>(y, r'). if r' = r \<and> y < NYEAR then c_round (v y) else data (y, r'))"
proof -
  have years: "\<forall>y \<in> set [0..<NYEAR]. reads scan (fld y) (Fin (v y)) \<and> fits_int (v y)"
    using assms(3) by simp
  have skip: "scanf_skip2 scan (a @ CHR '','' # b @ pop_fields fld [0..<NYEAR] @ rest) =
      pop_fields fld [0..<NYEAR] @ rest"
    using assms(1,2) pop_fields_head [OF assms(4)] by (rule scanf_skip2_reads)
  have loop: "pop_years scan r [0..<NYEAR] (pop_fields fld [0..<NYEAR] @ rest) tmp data =
      Some (0, rest, Fin (v (NYEAR - 1)),
        \<lambda>(y, r'). if r' = r \<and> y < NYEAR then c_round (v y) else data (y, r'))"
    unfolding pop_years_ok [OF years assms(4)] using NYEAR_pos by simp
  show ?thesis
    unfolding pop_regions.simps skip loop by simp
qed

lemma pop_regions_line:
  assumes "good_line scan a b fld trail v"
  shows "pop_regions scan (r # rs) (pop_line a b fld trail @ next) tmp data =
     pop_regions scan rs next (Fin (v (NYEAR - 1)))
       (\<lambda>(y, r'). if r' = r \<and> y < NYEAR then c_round (v y) else data (y, r'))"
proof -
  obtain va vb where a: "reads scan a va" and b: "reads scan b vb"
    using assms unfolding good_line_def by blast
  have years: "\<forall>y < NYEAR. reads scan (fld y) (Fin (v y)) \<and> fits_int (v y)"
    using assms unfolding good_line_def by simp
  have trail: "CHR 0x0A \<notin> set trail" "length trail < 1023"
    using assms unfolding good_line_def by simp_all
  let ?rest = "trail @ CHR 0x0A # next"
  have rest: "?rest = [] \<or> hd ?rest = CHR '','' \<or> hd ?rest = CHR 0x0A"
    using assms unfolding good_line_def by (cases trail) auto
  have line: "pop_line a b fld trail @ next = a @ CHR '','' # b @ pop_fields fld [0..<NYEAR] @ ?rest"
    by (simp add: pop_line_def)
  show ?thesis
    unfolding line pop_regions_fields [OF a b years rest] fgets_line [OF trail] ..
qed

lemma pop_regions_lines:
  assumes "\<forall>r \<in> set rs. good_line scan (a r) (b r) (fld r) (trail r) (v r)"
  shows "pop_regions scan (rs @ rs') (pop_lines a b fld trail rs @ next) tmp data =
     pop_regions scan rs' next (if rs = [] then tmp else Fin (v (last rs) (NYEAR - 1)))
       (\<lambda>(y, r). if r \<in> set rs \<and> y < NYEAR then c_round (v r y) else data (y, r))"
  using assms
proof (induction rs arbitrary: tmp data)
  case Nil
  show ?case by (simp add: pop_lines_def)
next
  case (Cons r rs)
  have line: "good_line scan (a r) (b r) (fld r) (trail r) (v r)"
    and later: "\<forall>r \<in> set rs. good_line scan (a r) (b r) (fld r) (trail r) (v r)"
    using Cons.prems by simp_all
  have split: "pop_lines a b fld trail (r # rs) @ next =
      pop_line (a r) (b r) (fld r) (trail r) @ (pop_lines a b fld trail rs @ next)"
    by (simp add: pop_lines_def)
  have same: "(\<lambda>(y, r'). if r' \<in> set rs \<and> y < NYEAR then c_round (v r' y)
        else (\<lambda>(y, r'). if r' = r \<and> y < NYEAR then c_round (v r y) else data (y, r')) (y, r')) =
      (\<lambda>(y, r'). if r' \<in> set (r # rs) \<and> y < NYEAR then c_round (v r' y) else data (y, r'))"
    by (auto simp: fun_eq_iff)
  show ?case
    unfolding append_Cons split pop_regions_line [OF line] Cons.IH [OF later] same
    by simp
qed


lemma separator_stops:
  assumes "rest = [] \<or> hd rest = CHR '','' \<or> hd rest = CHR 0x0A \<or> hd rest = CHR '' ''"
  shows "takeWhile isdigit rest = []" and "dropWhile isdigit rest = rest"
    and "\<not> (rest \<noteq> [] \<and> hd rest = CHR ''.'')"
  using assms by (cases rest; auto simp: isdigit_def)+

lemma reads_scan_decimal:
  "reads scan_decimal ''1'' (Fin 1)"
  "reads scan_decimal ''2005'' (Fin 2005)"
  "reads scan_decimal ''2.5'' (Fin (5 / 2))"
  "reads scan_decimal ''-2.5'' (Fin (- (5 / 2)))"
  "reads scan_decimal ''5'' (Fin 5)"
  unfolding reads_def
  by (intro allI impI,
      simp add: scan_decimal_def isspace_def isdigit_def digits_val_def Let_def
        separator_stops)+

lemma fits_int_examples: "fits_int (5 / 2)" "fits_int (- (5 / 2))"
  by (simp_all add: fits_int_def c_round_def)

lemma regions_split:
  assumes "rgn < NRGN"
  shows "[0..<NRGN] = [0..<rgn] @ rgn # [Suc rgn..<NRGN]"
proof -
  have "[0..<rgn + (NRGN - rgn)] = [0..<rgn] @ [rgn..<rgn + (NRGN - rgn)]"
    by (rule upt_add_eq_append) simp
  moreover have "rgn + (NRGN - rgn) = NRGN"
    using assms by simp
  moreover have "[rgn..<NRGN] = rgn # [Suc rgn..<NRGN]"
    using assms by (rule upt_conv_Cons)
  ultimately show ?thesis by simp
qed

lemma years_of_line_split:
  assumes "iyear < NYEAR"
  shows "[0..<NYEAR] = [0..<iyear] @ iyear # [Suc iyear..<NYEAR]"
proof -
  have "[0..<iyear + (NYEAR - iyear)] = [0..<iyear] @ [iyear..<iyear + (NYEAR - iyear)]"
    by (rule upt_add_eq_append) simp
  moreover have "iyear + (NYEAR - iyear) = NYEAR"
    using assms by simp
  moreover have "[iyear..<NYEAR] = iyear # [Suc iyear..<NYEAR]"
    using assms by (rule upt_conv_Cons)
  ultimately show ?thesis by simp
qed


lemma pop_regions_fail:
  assumes "reads scan a va" and "reads scan b vb"
    and "\<forall>y < iyear. reads scan (fld y) (Fin (v y)) \<and> fits_int (v y)"
    and "bad = [] \<or> hd bad = CHR '','' \<or> hd bad = CHR 0x0A"
    and "fst (scanf_comma_lf scan bad tmp) \<noteq> 1"
    and "iyear < NYEAR"
    and "round_to_int (if iyear = 0 then tmp else Fin (v (iyear - 1))) = Some w"
  shows "pop_regions scan (r # rs) (a @ CHR '','' # b @ pop_fields fld [0..<iyear] @ bad) tmp data =
     Some (1, (\<lambda>(y, r'). if r' = r \<and> y < iyear then c_round (v y) else data (y, r'))
                ((iyear, r) := w))"
proof -
  have years: "\<forall>y \<in> set [0..<iyear]. reads scan (fld y) (Fin (v y)) \<and> fits_int (v y)"
    using assms(3) by simp
  have skip: "scanf_skip2 scan (a @ CHR '','' # b @ pop_fields fld [0..<iyear] @ bad) =
      pop_fields fld [0..<iyear] @ bad"
    using assms(1,2) pop_fields_head [OF assms(4)] by (rule scanf_skip2_reads)
  have before: "(if [0..<iyear] = [] then tmp else Fin (v (last [0..<iyear]))) =
      (if iyear = 0 then tmp else Fin (v (iyear - 1)))"
    by (cases iyear) simp_all
  have "\<exists>s1. pop_years scan r ([0..<iyear] @ iyear # [Suc iyear..<NYEAR])
        (pop_fields fld [0..<iyear] @ bad) tmp data =
      Some (1, s1, if [0..<iyear] = [] then tmp else Fin (v (last [0..<iyear])),
        (\<lambda>(y', r'). if r' = r \<and> y' \<in> set [0..<iyear] then c_round (v y') else data (y', r'))
          ((iyear, r) := w))"
    using years assms(4,5) assms(7) [folded before] by (rule pop_years_fail)
  then obtain s1 where loop: "pop_years scan r [0..<NYEAR] (pop_fields fld [0..<iyear] @ bad) tmp data =
      Some (1, s1, if iyear = 0 then tmp else Fin (v (iyear - 1)),
        (\<lambda>(y', r'). if r' = r \<and> y' < iyear then c_round (v y') else data (y', r'))
          ((iyear, r) := w))"
    unfolding years_of_line_split [OF assms(6), symmetric] before by auto
  show ?thesis
    unfolding pop_regions.simps skip loop by simp
qed

lemma good_line_example:
  "good_line scan_decimal ''1'' ''2005'' (\<lambda>y. if y = 2 then ''-2.5'' else ''2.5'') trail
     (\<lambda>y. if y = 2 then - (5 / 2) else 5 / 2) \<longleftrightarrow>
   (trail = [] \<or> hd trail = CHR '','') \<and> CHR 0x0A \<notin> set trail \<and> length trail < 1023"
  unfolding good_line_def
  using reads_scan_decimal fits_int_examples by auto






section \<open>The coordinate tables\<close>

lemma steps_from_map:
  "steps_from a xs \<Longrightarrow> xs = map (\<lambda>i. real i / 2 + a) [0..<length xs]"
proof (induction xs arbitrary: a)
  case Nil
  show ?case by simp
next
  case (Cons x xs)
  have "xs = map (\<lambda>i. real i / 2 + (a + 1 / 2)) [0..<length xs]"
    using Cons.prems by (intro Cons.IH) simp
  then have "xs = map (\<lambda>i. real (Suc i) / 2 + a) [0..<length xs]"
    by (simp add: add_divide_distrib algebra_simps)
  then have "xs = map (\<lambda>i. real i / 2 + a) (map Suc [0..<length xs])"
    by (simp add: comp_def)
  then show ?case
    using Cons.prems by (simp add: upt_conv_Cons map_Suc_upt del: upt_Suc)
qed

lemma lat_data_steps: "lat_data = map (\<lambda>i. Fin (real i / 2 - 89.75)) [0..<NLAT]"
proof -
  let ?vals = "map (\<lambda>c. case c of Fin x \<Rightarrow> x | NaN \<Rightarrow> 0) lat_data"
  have vals: "lat_data = map Fin ?vals"
    by (simp add: lat_data_def)
  have "steps_from (- 89.75) ?vals"
    by (simp add: lat_data_def)
  then have "?vals = map (\<lambda>i. real i / 2 + (- 89.75)) [0..<length ?vals]"
    by (rule steps_from_map)
  moreover have "length ?vals = NLAT"
    by (simp add: lat_data_def NLAT_def)
  ultimately have "?vals = map (\<lambda>i. real i / 2 - 89.75) [0..<NLAT]"
    by simp
  then show ?thesis
    by (subst vals) (simp only: map_map comp_def)
qed

lemma lon_data_steps: "lon_data = map (\<lambda>i. Fin (real i / 2 - 179.75)) [0..<NLON]"
proof -
  let ?vals = "map (\<lambda>c. case c of Fin x \<Rightarrow> x | NaN \<Rightarrow> 0) lon_data"
  have vals: "lon_data = map Fin ?vals"
    by (simp add: lon_data_def)
  have "steps_from (- 179.75) ?vals"
    by (simp add: lon_data_def)
  then have "?vals = map (\<lambda>i. real i / 2 + (- 179.75)) [0..<length ?vals]"
    by (rule steps_from_map)
  moreover have "length ?vals = NLON"
    by (simp add: lon_data_def NLON_def)
  ultimately have "?vals = map (\<lambda>i. real i / 2 - 179.75) [0..<NLON]"
    by simp
  then show ?thesis
    by (subst vals) (simp only: map_map comp_def)
qed

lemma upt_small: "[0..<8] = [0, 1, 2, 3, 4, 5, 6, 7]"
  "[0..<18] = [0, 1, 2, 3, 4, 5, 6, 7, 8, 9, 10, 11, 12, 13, 14, 15, 16, 17]"
  by (simp_all add: upt_conv_Cons)

lemma time_data_steps: "time_data = map (\<lambda>i. Fin (2010 + 5 * real i)) [0..<NYEAR]"
  by (simp add: time_data_def NYEAR_def upt_small)

lemma basin_data_from_one: "basin_data = map int [1..<Suc NBASIN]"
proof -
  have "map (\<lambda>i. int i + 1) [0..<n] = map int [1..<Suc n]" for n
    by (induction n) simp_all
  then show ?thesis by (simp add: basin_data_def)
qed

lemma written_coordinates:
  "written ''lat'' (mat2nc_calls outfilename md data pop bdata rdata) = [Float_list lat_data]"
  "written ''lon'' (mat2nc_calls outfilename md data pop bdata rdata) = [Float_list lon_data]"
  "written ''time'' (mat2nc_calls outfilename md data pop bdata rdata) = [Float_list time_data]"
  "written ''rgn'' (mat2nc_calls outfilename md data pop bdata rdata) = [Int_list rgn_data]"
  "written ''basin'' (mat2nc_calls outfilename md data pop bdata rdata) = [Int_list basin_data]"
  by (simp_all add: mat2nc_calls_def grid_names_def basin_names_def region_names_def upt_small)

lemma dimension_lengths:
  "dim_lengths ''lat'' (mat2nc_calls outfilename md data pop bdata rdata) = [NLAT]"
  "dim_lengths ''lon'' (mat2nc_calls outfilename md data pop bdata rdata) = [NLON]"
  "dim_lengths ''time'' (mat2nc_calls outfilename md data pop bdata rdata) = [NYEAR]"
  "dim_lengths ''rgn'' (mat2nc_calls outfilename md data pop bdata rdata) = [NRGN]"
  "dim_lengths ''basin'' (mat2nc_calls outfilename md data pop bdata rdata) = [NBASIN]"
  by (simp_all add: mat2nc_calls_def grid_names_def basin_names_def region_names_def upt_small)

section \<open>What the binary readers return\<close>

lemma read_5yr_data_file:
  assumes "filename \<noteq> ''no-data''" and "fs filename = Some datafile" and "k \<le> NYEAR"
  shows "read_5yr_data fs filename data k =
     (if (k + NYEAR) * (NLON * NLAT) \<le> length datafile
      then Some (0, transpose_5yr (take (NYEAR * NLAT * NLON) (drop (k * NLAT * NLON) datafile)) data)
      else Some (1, data))"
proof -
  have "min (length datafile) (k * NLAT * NLON) \<le> k * NLAT * NLON"
    by (rule min.cobounded2)
  also have "\<dots> = k * (NLON * NLAT)"
    by (simp add: mult.assoc mult.commute [of NLAT NLON])
  also have "\<dots> \<le> NYEAR * (NLON * NLAT)"
    using assms(3) by (rule mult_le_mono1)
  finally have fits: "\<not> NYEAR * (NLON * NLAT) < min (length datafile) (k * NLAT * NLON)"
    by (rule leD)
  have full: "min (length datafile - k * NLAT * NLON) (NYEAR * NLAT * NLON) = NYEAR * NLAT * NLON
      \<longleftrightarrow> (k + NYEAR) * (NLON * NLAT) \<le> length datafile"
    by (auto simp: min_def add_mult_distrib mult.assoc mult.commute [of NLAT NLON]
        NYEAR_def NLAT_def NLON_def)
  show ?thesis
    using assms(1,2) fits full
    by (simp add: read_5yr_data_def fread_def)
qed

lemma read_table_data_file:
  assumes "fs filename = Some datafile" and "nrow \<le> NBASIN"
  shows "read_table_data fs filename nrow data =
     Some (if (NYEAR + 1) * nrow \<le> length datafile then 0 else 1,
           store_items (take (NYEAR * nrow) (drop nrow datafile)) data)"
proof -
  have fits: "\<not> NBASIN < min (length datafile) nrow"
    using assms(2) by simp
  have full: "min (length datafile - nrow) (NYEAR * nrow) = NYEAR * nrow
      \<longleftrightarrow> (NYEAR + 1) * nrow \<le> length datafile"
    by (auto simp: min_def NYEAR_def)
  show ?thesis
    using assms(1) fits full
    by (simp add: read_table_data_def fread_def)
qed

section \<open>The driver, step by step\<close>








lemma cfg_tokens_append: "cfg_tokens (ts @ us) = cfg_tokens ts @ cfg_tokens us"
  by (simp add: cfg_tokens_def)





lemma pop_years_status:
  "pop_years scan rgn ys s tmp data = Some (stat, s1, tmp1, data1) \<Longrightarrow> stat = 0 \<or> stat = 1"
  by (induction ys arbitrary: s tmp data)
    (auto split: prod.splits option.splits if_splits)























text \<open>
  C4. A five-year-interval file with at least \<open>k + 18\<close> records of \<open>720 * 360\<close>
  values, read with skip-year count \<open>k\<close>: the reader returns 0, and output time-step
  \<open>i\<close> at \<open>[lat][lon]\<close> is the value of input record \<open>k + i\<close> at \<open>[lon][lat]\<close>, that
  is the item at offset \<open>360 * lon + lat\<close> of that record, unchanged. So exactly the
  \<open>k\<close> leading records are dropped. The skip-year count is one that the read buffer
  of 18 records can take (the driver passes 1 or 2).
\<close>

theorem read_5yr_data_transposes:
  assumes "filename \<noteq> ''no-data''" and "fs filename = Some datafile"
    and "k \<le> NYEAR" and "(k + NYEAR) * (NLON * NLAT) \<le> length datafile"
    and "i < NYEAR" and "ilat < NLAT" and "ilon < NLON"
  shows "\<exists>out. read_5yr_data fs filename data k = Some (0, out) \<and>
     out (i, ilat, ilon) = datafile ! ((k + i) * (NLON * NLAT) + (NLAT * ilon + ilat))"
proof -
  let ?rd = "take (NYEAR * NLAT * NLON) (drop (k * NLAT * NLON) datafile)"
  have res: "read_5yr_data fs filename data k = Some (0, transpose_5yr ?rd data)"
    using read_5yr_data_file [of filename fs datafile k data] assms(1,2,3,4) by simp
  have "NLAT * ilon + ilat < NLAT * NLON"
  proof -
    have "NLAT * ilon + ilat < NLAT * ilon + NLAT" using assms(6) by simp
    also have "\<dots> = NLAT * Suc ilon" by simp
    also have "\<dots> \<le> NLAT * NLON" using assms(7) by (intro mult_le_mono2) simp
    finally show ?thesis .
  qed
  moreover have "i * (NLON * NLAT) + NLON * NLAT \<le> NYEAR * (NLON * NLAT)"
  proof -
    have "Suc i * (NLON * NLAT) \<le> NYEAR * (NLON * NLAT)"
      using assms(5) by (intro mult_le_mono1) simp
    then show ?thesis by simp
  qed
  ultimately have inside: "i * (NLON * NLAT) + (NLAT * ilon + ilat) < NYEAR * NLAT * NLON"
    by (simp add: mult.assoc mult.commute [of NLAT NLON])
  have enough: "k * NLAT * NLON + (i * (NLON * NLAT) + (NLAT * ilon + ilat)) < length datafile"
    using inside assms(4) by (simp add: add_mult_distrib mult.assoc mult.commute [of NLAT NLON])
  have "transpose_5yr ?rd data (i, ilat, ilon) = ?rd ! (i * (NLON * NLAT) + (NLAT * ilon + ilat))"
    using assms(5,6,7) by (simp add: transpose_5yr_at)
  also have "\<dots> = datafile ! (k * NLAT * NLON + (i * (NLON * NLAT) + (NLAT * ilon + ilat)))"
    using inside enough by simp
  also have "k * NLAT * NLON + (i * (NLON * NLAT) + (NLAT * ilon + ilat)) =
      (k + i) * (NLON * NLAT) + (NLAT * ilon + ilat)"
    by (simp add: add_mult_distrib mult.assoc mult.commute [of NLAT NLON])
  finally show ?thesis using res by simp
qed

theorem read_5yr_data_transposes_witness:
  "\<exists>out. read_5yr_data (\<lambda>f. Some (map (\<lambda>j. Fin (real j)) [0..<5184000])) ''irr.dat''
        (\<lambda>c. Fin 0) 2 = Some (0, out) \<and>
     out (3, 10, 20) = Fin 1303210"
  using read_5yr_data_transposes [of "''irr.dat''"
      "\<lambda>f. Some (map (\<lambda>j. Fin (real j)) [0..<5184000])"
      "map (\<lambda>j. Fin (real j)) [0..<5184000]" 2 3 10 20 "\<lambda>c. Fin 0"]
  by (simp add: NYEAR_def NLAT_def NLON_def)

text \<open>
  C5. A packed-binary table file with at least \<open>19 * n\<close> values, read with row count
  \<open>n\<close> (at most \<open>NBASIN\<close>, the size of the throwaway buffer; the driver passes 235
  and 63): the reader returns 0, the first \<open>n\<close> values are dropped, and the next
  \<open>18 * n\<close> values are in the table in stream order, value \<open>n + i\<close> of the file at
  offset \<open>i\<close>, so that \<open>data[t][e]\<close> is value \<open>(t + 1) * n + e\<close>. Nothing else of the
  table is touched.
\<close>

theorem read_table_data_copies:
  assumes "fs filename = Some datafile" and "nrow \<le> NBASIN"
    and "(NYEAR + 1) * nrow \<le> length datafile"
  shows "\<exists>out. read_table_data fs filename nrow data = Some (0, out) \<and>
     (\<forall>i < NYEAR * nrow. out i = datafile ! (nrow + i)) \<and>
     (\<forall>t < NYEAR. \<forall>e < nrow. out (t * nrow + e) = datafile ! ((t + 1) * nrow + e)) \<and>
     (\<forall>i \<ge> NYEAR * nrow. out i = data i)"
proof -
  let ?items = "take (NYEAR * nrow) (drop nrow datafile)"
  let ?out = "store_items ?items data"
  have res: "read_table_data fs filename nrow data = Some (0, ?out)"
    using read_table_data_file [of fs filename datafile nrow data] assms by simp
  have len: "length ?items = NYEAR * nrow"
    using assms(3) by simp
  have flat: "?out i = datafile ! (nrow + i)" if "i < NYEAR * nrow" for i
    using that assms(3) by (simp add: store_items_def)
  have cell: "?out (t * nrow + e) = datafile ! ((t + 1) * nrow + e)"
    if "t < NYEAR" and "e < nrow" for t e
  proof -
    have "t * nrow + e < t * nrow + nrow" using that(2) by simp
    also have "\<dots> = Suc t * nrow" by simp
    also have "\<dots> \<le> NYEAR * nrow" using that(1) by (intro mult_le_mono1) simp
    finally have "?out (t * nrow + e) = datafile ! (nrow + (t * nrow + e))" by (rule flat)
    then show ?thesis by (simp add: add.assoc)
  qed
  have rest: "?out i = data i" if "NYEAR * nrow \<le> i" for i
    using that len by (simp add: store_items_def)
  show ?thesis using res flat cell rest by blast
qed

theorem read_table_data_copies_witness:
  "\<exists>out. read_table_data (\<lambda>f. Some (map (\<lambda>j. Fin (real j)) [0..<4465])) ''basin_supply.dat''
        235 (\<lambda>i. NaN) = Some (0, out) \<and>
     out 0 = Fin 235 \<and> out (2 * 235 + 7) = Fin 712 \<and> out 4230 = NaN"
proof -
  have "\<exists>out. read_table_data (\<lambda>f. Some (map (\<lambda>j. Fin (real j)) [0..<4465])) ''basin_supply.dat''
        235 (\<lambda>i. NaN) = Some (0, out) \<and>
     (\<forall>i < NYEAR * 235. out i = map (\<lambda>j. Fin (real j)) [0..<4465] ! (235 + i)) \<and>
     (\<forall>t < NYEAR. \<forall>e < 235. out (t * 235 + e) =
         map (\<lambda>j. Fin (real j)) [0..<4465] ! ((t + 1) * 235 + e)) \<and>
     (\<forall>i \<ge> NYEAR * 235. out i = NaN)"
    by (rule read_table_data_copies) (simp_all add: NYEAR_def NBASIN_def)
  then obtain out where
    res: "read_table_data (\<lambda>f. Some (map (\<lambda>j. Fin (real j)) [0..<4465])) ''basin_supply.dat''
        235 (\<lambda>i. NaN) = Some (0, out)"
    and flat: "\<forall>i < NYEAR * 235. out i = map (\<lambda>j. Fin (real j)) [0..<4465] ! (235 + i)"
    and cell: "\<forall>t < NYEAR. \<forall>e < 235. out (t * 235 + e) =
         map (\<lambda>j. Fin (real j)) [0..<4465] ! ((t + 1) * 235 + e)"
    and rest: "\<forall>i \<ge> NYEAR * 235. out i = NaN"
    by blast
  have "out 0 = Fin 235"
    using flat [rule_format, of 0] by (simp add: NYEAR_def)
  moreover have "out (2 * 235 + 7) = Fin 712"
    using cell [rule_format, of 2 7] by (simp add: NYEAR_def)
  moreover have "out 4230 = NaN"
    using rest [rule_format, of 4230] by (simp add: NYEAR_def)
  ultimately show ?thesis using res by blast
qed

text \<open>
  C7. The sentinel name \<^verbatim>\<open>no-data\<close>: each of the two grid readers returns 0, and
  every cell \<open>[t][lat][lon]\<close> with \<open>t < 18\<close>, \<open>lat < 360\<close>, \<open>lon < 720\<close> of its output
  grid is the not-a-number marker. No file is looked at.
\<close>

theorem sentinel_fills_grid_with_nan:
  "(\<exists>out. read_and_aggregate_data fs ''no-data'' data = (0, out) \<and>
      (\<forall>t < NYEAR. \<forall>ilat < NLAT. \<forall>ilon < NLON. out (t, ilat, ilon) = NaN)) \<and>
   (\<exists>out. read_5yr_data fs ''no-data'' data nskipyr = Some (0, out) \<and>
      (\<forall>t < NYEAR. \<forall>ilat < NLAT. \<forall>ilon < NLON. out (t, ilat, ilon) = NaN))"
  by (simp add: read_and_aggregate_data_def read_5yr_data_def fill_nan_at)

theorem sentinel_fills_grid_with_nan_witness:
  "(\<exists>out. read_and_aggregate_data (\<lambda>f. None) ''no-data'' (\<lambda>c. Fin 1) = (0, out) \<and>
      out (0, 0, 0) = NaN \<and> out (17, 359, 719) = NaN) \<and>
   (\<exists>out. read_5yr_data (\<lambda>f. None) ''no-data'' (\<lambda>c. Fin 1) 2 = Some (0, out) \<and>
      out (0, 0, 0) = NaN \<and> out (17, 359, 719) = NaN)"
proof -
  have first: "(0::nat) < NYEAR" "(0::nat) < NLAT" "(0::nat) < NLON"
    by (simp_all add: NYEAR_def NLAT_def NLON_def)
  have last: "(17::nat) < NYEAR" "(359::nat) < NLAT" "(719::nat) < NLON"
    by (simp_all add: NYEAR_def NLAT_def NLON_def)
  note both = sentinel_fills_grid_with_nan [of "\<lambda>f. None" "\<lambda>c. Fin 1" 2]
  from both [THEN conjunct1] obtain m where
    m: "read_and_aggregate_data (\<lambda>f. None) ''no-data'' (\<lambda>c. Fin 1) = (0, m)"
    and mc: "\<forall>t < NYEAR. \<forall>ilat < NLAT. \<forall>ilon < NLON. m (t, ilat, ilon) = NaN"
    by (elim exE conjE)
  from both [THEN conjunct2] obtain g where
    g: "read_5yr_data (\<lambda>f. None) ''no-data'' (\<lambda>c. Fin 1) 2 = Some (0, g)"
    and gc: "\<forall>t < NYEAR. \<forall>ilat < NLAT. \<forall>ilon < NLON. g (t, ilat, ilon) = NaN"
    by (elim exE conjE)
  have "m (0, 0, 0) = NaN" "m (17, 359, 719) = NaN"
    using mc [rule_format, OF first] mc [rule_format, OF last] by simp_all
  moreover have "g (0, 0, 0) = NaN" "g (17, 359, 719) = NaN"
    using gc [rule_format, OF first] gc [rule_format, OF last] by simp_all
  ultimately show ?thesis
    using m g by simp
qed

text \<open>
  C10. Neither reader looks at the count of its throwaway read. On a file that opens
  (and, for the grid reader, is not named by the sentinel) \<^verbatim>\<open>read_5yr_data\<close> returns 0
  exactly when the file holds at least \<open>(k + 18) * 360 * 720\<close> values and
  \<^verbatim>\<open>read_table_data\<close> exactly when it holds at least \<open>19 * nrow\<close> values; every
  shortfall, also one inside the throwaway block, comes back as the one status 1 of
  the check after the main read. The skip count and the row count are ones the
  throwaway buffers can take.
\<close>

theorem throwaway_read_not_checked:
  assumes "filename \<noteq> ''no-data''" and "gfs filename = Some gridfile" and "k \<le> NYEAR"
    and "tfs tname = Some tablefile" and "nrow \<le> NBASIN"
  shows "(\<exists>stat out. read_5yr_data gfs filename data k = Some (stat, out) \<and>
            (stat = 0 \<longleftrightarrow> (k + NYEAR) * NLAT * NLON \<le> length gridfile) \<and>
            (stat \<noteq> 0 \<longrightarrow> stat = 1)) \<and>
         (\<exists>stat out. read_table_data tfs tname nrow tdata = Some (stat, out) \<and>
            (stat = 0 \<longleftrightarrow> (NYEAR + 1) * nrow \<le> length tablefile) \<and>
            (stat \<noteq> 0 \<longrightarrow> stat = 1))"
proof -
  have same: "(k + NYEAR) * NLAT * NLON = (k + NYEAR) * (NLON * NLAT)"
    by (simp add: mult.assoc mult.commute [of NLAT NLON])
  have grid: "\<exists>stat out. read_5yr_data gfs filename data k = Some (stat, out) \<and>
            (stat = 0 \<longleftrightarrow> (k + NYEAR) * NLAT * NLON \<le> length gridfile) \<and>
            (stat \<noteq> 0 \<longrightarrow> stat = 1)"
    unfolding same read_5yr_data_file [of filename gfs gridfile k data, OF assms(1,2,3)]
    by simp
  have tbl: "\<exists>stat out. read_table_data tfs tname nrow tdata = Some (stat, out) \<and>
            (stat = 0 \<longleftrightarrow> (NYEAR + 1) * nrow \<le> length tablefile) \<and>
            (stat \<noteq> 0 \<longrightarrow> stat = 1)"
    unfolding read_table_data_file [of tfs tname tablefile nrow tdata, OF assms(4,5)]
    by simp
  show ?thesis using grid tbl by (rule conjI)
qed

theorem throwaway_read_not_checked_witness:
  "(\<exists>out. read_5yr_data (\<lambda>f. Some (replicate 500000 (Fin 1))) ''irr.dat'' (\<lambda>c. Fin 0) 2
        = Some (1, out)) \<and>
   (\<exists>out. read_table_data (\<lambda>f. Some (replicate 4465 (Fin 1))) ''basin_irr.dat'' 235 (\<lambda>i. Fin 0)
        = Some (0, out))"
  using throwaway_read_not_checked [of "''irr.dat''" "\<lambda>f. Some (replicate 500000 (Fin 1))"
      "replicate 500000 (Fin 1)" 2 "\<lambda>f. Some (replicate 4465 (Fin 1))" "''basin_irr.dat''"
      "replicate 4465 (Fin 1)" 235 "\<lambda>c. Fin 0" "\<lambda>i. Fin 0"]
  by (auto simp: NYEAR_def NLAT_def NLON_def NBASIN_def)






section \<open>What the population reader returns\<close>




text \<open>
  C9. The file holds whole lines for the regions before \<open>rgn\<close> and, in the line of
  \<open>rgn\<close>, the two leading fields and the year fields before \<open>iyear\<close>; what follows
  (the end of the input, a newline, or a comma with no number after it) makes the
  conversion for \<open>(rgn, iyear)\<close> fail. Then the reader returns 1, and the table is not
  as it was: every cell of the regions before has its rounded value, so have the
  years before \<open>iyear\<close> of region \<open>rgn\<close>, and the failing cell \<open>[iyear][rgn]\<close> was
  assigned the rounded value of \<^verbatim>\<open>tmp\<close> as the failed conversion left it, that is the
  value of the field before. All other cells are as they were.
\<close>

theorem read_pop_data_failure_writes_cells:
  assumes "fs filename = Some (pop_lines a b fld trail [0..<rgn] @
        a rgn @ CHR '','' # b rgn @ pop_fields (fld rgn) [0..<iyear] @ bad)"
    and "\<forall>r < rgn. good_line scan (a r) (b r) (fld r) (trail r) (v r)"
    and "rgn < NRGN" and "iyear < NYEAR"
    and "reads scan (a rgn) va" and "reads scan (b rgn) vb"
    and "\<forall>y < iyear. reads scan (fld rgn y) (Fin (v rgn y)) \<and> fits_int (v rgn y)"
    and "bad = [] \<or> hd bad = CHR '','' \<or> hd bad = CHR 0x0A"
    and "fst (scanf_comma_lf scan bad tmp0) \<noteq> 1"
    and "round_to_int (tmp_before tmp0 v rgn iyear) = Some w"
  shows "\<exists>out. read_pop_data scan fs filename tmp0 data = Some (1, out) \<and>
     out (iyear, rgn) = w \<and>
     (\<forall>r < rgn. \<forall>y < NYEAR. out (y, r) = c_round (v r y)) \<and>
     (\<forall>y < iyear. out (y, rgn) = c_round (v rgn y)) \<and>
     (\<forall>r y. \<not> (r < rgn \<and> y < NYEAR) \<and> \<not> (r = rgn \<and> y \<le> iyear) \<longrightarrow> out (y, r) = data (y, r))"
proof -
  let ?line = "a rgn @ CHR '','' # b rgn @ pop_fields (fld rgn) [0..<iyear] @ bad"
  let ?tmp = "if [0..<rgn] = [] then tmp0 else Fin (v (last [0..<rgn]) (NYEAR - 1))"
  let ?data = "\<lambda>(y, r). if r \<in> set [0..<rgn] \<and> y < NYEAR then c_round (v r y) else data (y, r)"
  let ?out = "(\<lambda>(y, r'). if r' = rgn \<and> y < iyear then c_round (v rgn y) else ?data (y, r'))
      ((iyear, rgn) := w)"
  have lines: "\<forall>r \<in> set [0..<rgn]. good_line scan (a r) (b r) (fld r) (trail r) (v r)"
    using assms(2) by simp
  have tmp: "?tmp = (if rgn = 0 then tmp0 else Fin (v (rgn - 1) (NYEAR - 1)))"
    by (cases rgn) simp_all
  have fail: "fst (scanf_comma_lf scan bad ?tmp) \<noteq> 1"
    using assms(9) scanf_comma_lf_status [of scan bad tmp0 ?tmp] by simp
  have "(if iyear = 0 then ?tmp else Fin (v rgn (iyear - 1))) = tmp_before tmp0 v rgn iyear"
    unfolding tmp tmp_before_def by (cases "iyear = 0"; cases "rgn = 0") simp_all
  then have cast: "round_to_int (if iyear = 0 then ?tmp else Fin (v rgn (iyear - 1))) = Some w"
    using assms(10) by (simp only:)
  have "pop_regions scan ([0..<rgn] @ rgn # [Suc rgn..<NRGN])
        (pop_lines a b fld trail [0..<rgn] @ ?line) tmp0 data =
      pop_regions scan (rgn # [Suc rgn..<NRGN]) ?line ?tmp ?data"
    using lines by (rule pop_regions_lines)
  also have "\<dots> = Some (1, ?out)"
    using assms(5,6,7,8) fail assms(4) cast by (rule pop_regions_fail)
  finally have res: "read_pop_data scan fs filename tmp0 data = Some (1, ?out)"
    using assms(1) unfolding regions_split [OF assms(3), symmetric]
    by (simp add: read_pop_data_def)
  have "?out (iyear, rgn) = w"
    by simp
  moreover have "\<forall>r < rgn. \<forall>y < NYEAR. ?out (y, r) = c_round (v r y)"
    by simp
  moreover have "\<forall>y < iyear. ?out (y, rgn) = c_round (v rgn y)"
    by simp
  moreover have "\<forall>r y. \<not> (r < rgn \<and> y < NYEAR) \<and> \<not> (r = rgn \<and> y \<le> iyear) \<longrightarrow>
      ?out (y, r) = data (y, r)"
    by auto
  ultimately show ?thesis
    using res by (intro exI [of _ ?out] conjI)
qed

theorem read_pop_data_failure_writes_cells_witness:
  "\<exists>out. read_pop_data scan_decimal
       [''pop.csv'' \<mapsto> pop_lines (\<lambda>r. ''1'') (\<lambda>r. ''2005'')
          (\<lambda>r y. if y = 2 then ''-2.5'' else ''2.5'') (\<lambda>r. []) [0..<2] @
          ''1'' @ CHR '','' # ''2005'' @ pop_fields (\<lambda>y. if y = 2 then ''-2.5'' else ''2.5'') [0..<3] @
          [CHR 0x0A]]
       ''pop.csv'' NaN zero_pop = Some (1, out) \<and>
     out (3, 2) = - 3 \<and> out (17, 1) = 3 \<and> out (2, 2) = - 3 \<and> out (4, 2) = 0"
proof -
  let ?text = "pop_lines (\<lambda>r. ''1'') (\<lambda>r. ''2005'')
          (\<lambda>r y. if y = 2 then ''-2.5'' else ''2.5'') (\<lambda>r. []) [0..<2] @
          ''1'' @ CHR '','' # ''2005'' @ pop_fields (\<lambda>y. if y = 2 then ''-2.5'' else ''2.5'') [0..<3] @
          [CHR 0x0A]"
  let ?v = "\<lambda>(r::nat) (y::nat). if y = 2 then - (5 / 2) else (5 / 2 :: real)"
  have opened: "[''pop.csv'' \<mapsto> ?text] ''pop.csv'' = Some ?text"
    by simp
  have lines: "\<forall>r < 2. good_line scan_decimal ''1'' ''2005''
      (\<lambda>y. if y = 2 then ''-2.5'' else ''2.5'') [] (?v r)"
    by (simp add: good_line_example)
  have idx: "(2::nat) < NRGN" "(3::nat) < NYEAR"
    by (simp_all add: NRGN_def NYEAR_def)
  have years: "\<forall>y < 3. reads scan_decimal (if y = 2 then ''-2.5'' else ''2.5'') (Fin (?v 2 y)) \<and>
      fits_int (?v 2 y)"
    using reads_scan_decimal fits_int_examples by simp
  have bad: "[CHR 0x0A] = [] \<or> hd [CHR 0x0A] = CHR '','' \<or> hd [CHR 0x0A] = CHR 0x0A"
    by simp
  have fail: "fst (scanf_comma_lf scan_decimal [CHR 0x0A] NaN) \<noteq> 1"
    by (simp add: scanf_comma_lf_def)
  have cast: "round_to_int (tmp_before NaN ?v 2 3) = Some (- 3)"
    by (simp add: tmp_before_def c_round_def)
  from read_pop_data_failure_writes_cells [of "[''pop.csv'' \<mapsto> ?text]" "''pop.csv''"
      "\<lambda>r. ''1''" "\<lambda>r. ''2005''" "\<lambda>r y. if y = 2 then ''-2.5'' else ''2.5''" "\<lambda>r. []" 2 3
      "[CHR 0x0A]" scan_decimal ?v "Fin 1" "Fin 2005" NaN "- 3" zero_pop,
      OF opened lines idx reads_scan_decimal(1,2) years bad fail cast]
  obtain out where res: "read_pop_data scan_decimal [''pop.csv'' \<mapsto> ?text] ''pop.csv'' NaN zero_pop
      = Some (1, out)"
    and failing: "out (3, 2) = - 3"
    and earlier: "\<forall>r < 2. \<forall>y < NYEAR. out (y, r) = c_round (?v r y)"
    and same_line: "\<forall>y < 3. out (y, 2) = c_round (?v 2 y)"
    and others: "\<forall>r y. \<not> (r < 2 \<and> y < NYEAR) \<and> \<not> (r = 2 \<and> y \<le> 3) \<longrightarrow> out (y, r) = zero_pop (y, r)"
    by (elim exE conjE)
  have "out (17, 1) = 3"
    using earlier [rule_format, of 1 17] by (simp add: NYEAR_def c_round_def)
  moreover have "out (2, 2) = - 3"
    using same_line [rule_format, of 2] by (simp add: c_round_def)
  moreover have "out (4, 2) = 0"
    using others [rule_format, of 2 4] by (simp add: zero_pop_def)
  ultimately show ?thesis
    using res failing by (intro exI [of _ out]) simp
qed

section \<open>The sentinel and the coordinates\<close>




text \<open>
  C8. The archive writer writes each coordinate variable once: \<open>lat\<close> gets the 360
  values \<open>-89.75 + i / 2\<close> (up to 89.75), \<open>lon\<close> the 720 values \<open>-179.75 + i / 2\<close> (up
  to 179.75), \<open>time\<close> the 18 values \<open>2010 + 5 i\<close>, \<open>rgn\<close> the 63 values 0 to 62 and
  \<open>basin\<close> the 235 values 1 to 235; the five dimensions have these lengths.
\<close>

theorem coordinate_values:
  "written ''lat'' (mat2nc_calls outfilename md data pop bdata rdata) =
     [Float_list (map (\<lambda>i. Fin (real i / 2 - 89.75)) [0..<360])] \<and>
   written ''lon'' (mat2nc_calls outfilename md data pop bdata rdata) =
     [Float_list (map (\<lambda>i. Fin (real i / 2 - 179.75)) [0..<720])] \<and>
   written ''time'' (mat2nc_calls outfilename md data pop bdata rdata) =
     [Float_list (map (\<lambda>i. Fin (2010 + 5 * real i)) [0..<18])] \<and>
   written ''rgn'' (mat2nc_calls outfilename md data pop bdata rdata) =
     [Int_list (map int [0..<63])] \<and>
   written ''basin'' (mat2nc_calls outfilename md data pop bdata rdata) =
     [Int_list (map int [1..<236])] \<and>
   dim_lengths ''lat'' (mat2nc_calls outfilename md data pop bdata rdata) = [360] \<and>
   dim_lengths ''lon'' (mat2nc_calls outfilename md data pop bdata rdata) = [720] \<and>
   dim_lengths ''time'' (mat2nc_calls outfilename md data pop bdata rdata) = [18] \<and>
   dim_lengths ''rgn'' (mat2nc_calls outfilename md data pop bdata rdata) = [63] \<and>
   dim_lengths ''basin'' (mat2nc_calls outfilename md data pop bdata rdata) = [235]"
  unfolding written_coordinates dimension_lengths
    lat_data_steps lon_data_steps time_data_steps basin_data_from_one rgn_data_def
  by (simp add: NLAT_def NLON_def NYEAR_def NRGN_def NBASIN_def del: upt_Suc)

section \<open>The exit status\<close>




end
